theory Spec2Isabelle
  imports Main
begin

section \<open>Python values used by server.py\<close>

text \<open>
  The embedding follows \<^verbatim>\<open>src/server.py\<close>. Python strings are modelled as
  \<^typ>\<open>string\<close>, one \<^typ>\<open>char\<close> per code point below 256. Every exception the
  source can raise is a value of \<open>py_error\<close>; a function that may raise returns
  \<open>py_error + 'a\<close> with \<open>Inl\<close> for the exception.
\<close>

datatype py_error =
    ValueError
  | IndexError
  | KeyError
  | TypeError
  | RequestException
  | JobLookupError
  | OtherError

subsection \<open>Builtin string operations\<close>

text \<open>\<^verbatim>\<open>str.strip()\<close>: the white space of \<^verbatim>\<open>str.isspace\<close> below code point 256.\<close>

definition is_space :: "char \<Rightarrow> bool" where
  "is_space c = (c \<in> set [CHR 0x09, CHR 0x0A, CHR 0x0B, CHR 0x0C, CHR 0x0D,
                            CHR 0x1C, CHR 0x1D, CHR 0x1E, CHR 0x1F, CHR 0x20,
                            CHR 0x85, CHR 0xA0])"

definition py_strip :: "string \<Rightarrow> string" where
  "py_strip s = rev (dropWhile is_space (rev (dropWhile is_space s)))"

text \<open>\<^verbatim>\<open>s.lstrip("#")\<close> removes every leading occurrence of the character.\<close>

definition py_lstrip :: "char \<Rightarrow> string \<Rightarrow> string" where
  "py_lstrip c s = dropWhile (\<lambda>x. x = c) s"

text \<open>\<^verbatim>\<open>s.split(sep)\<close> for a one-character separator: never empty.\<close>

fun py_split :: "char \<Rightarrow> string \<Rightarrow> string list" where
  "py_split sep [] = [[]]"
| "py_split sep (c # cs) =
     (if c = sep then [] # py_split sep cs
      else (let ps = py_split sep cs in (c # hd ps) # tl ps))"

text \<open>\<^verbatim>\<open>sep.join(xs)\<close>.\<close>

fun py_join :: "string \<Rightarrow> string list \<Rightarrow> string" where
  "py_join sep [] = []"
| "py_join sep [x] = x"
| "py_join sep (x # y # ys) = x @ sep @ py_join sep (y # ys)"

text \<open>\<^verbatim>\<open>s[i:j]\<close> for constant bounds \<open>0 \<le> i \<le> j\<close>: a slice never raises.\<close>

definition py_slice :: "nat \<Rightarrow> nat \<Rightarrow> 'a list \<Rightarrow> 'a list" where
  "py_slice i j s = take (j - i) (drop i s)"

text \<open>\<^verbatim>\<open>xs[i]\<close>: an index from \<open>-len(xs)\<close> up to \<open>-1\<close> counts from the end; outside
  \<open>-len(xs) .. len(xs) - 1\<close> the subscript raises \<^verbatim>\<open>IndexError\<close>.\<close>

definition py_index :: "'a list \<Rightarrow> int \<Rightarrow> py_error + 'a" where
  "py_index xs i =
     (if 0 \<le> i \<and> i < int (length xs) then Inr (xs ! nat i)
      else if i < 0 \<and> - int (length xs) \<le> i then Inr (xs ! nat (int (length xs) + i))
      else Inl IndexError)"

subsection \<open>\<^verbatim>\<open>int(s)\<close> and \<^verbatim>\<open>int(s, 16)\<close>\<close>

text \<open>
  The value of a digit character (\<open>0-9\<close>, \<open>a-f\<close>, \<open>A-F\<close>; the two bases server.py
  uses are 10 and 16, so no further letter is ever a digit).
\<close>

definition digit_value :: "char \<Rightarrow> nat option" where
  "digit_value c = map_of
     [(CHR ''0'', 0), (CHR ''1'', 1), (CHR ''2'', 2), (CHR ''3'', 3), (CHR ''4'', 4),
      (CHR ''5'', 5), (CHR ''6'', 6), (CHR ''7'', 7), (CHR ''8'', 8), (CHR ''9'', 9),
      (CHR ''a'', 10), (CHR ''b'', 11), (CHR ''c'', 12), (CHR ''d'', 13),
      (CHR ''e'', 14), (CHR ''f'', 15),
      (CHR ''A'', 10), (CHR ''B'', 11), (CHR ''C'', 12), (CHR ''D'', 13),
      (CHR ''E'', 14), (CHR ''F'', 15)] c"

definition is_digit :: "nat \<Rightarrow> char \<Rightarrow> bool" where
  "is_digit base c = (case digit_value c of None \<Rightarrow> False | Some v \<Rightarrow> v < base)"

text \<open>
  White space as \<^verbatim>\<open>int()\<close> sees it: the ASCII white space of the C parser, and the
  two code points below 256 that are Unicode spaces (they are turned into a blank first).
\<close>

definition is_int_space :: "char \<Rightarrow> bool" where
  "is_int_space c = (c \<in> set [CHR 0x09, CHR 0x0A, CHR 0x0B, CHR 0x0C, CHR 0x0D, CHR 0x20,
                                CHR 0x85, CHR 0xA0])"

text \<open>The optional sign: the result is (negative, rest).\<close>

fun take_sign :: "string \<Rightarrow> bool \<times> string" where
  "take_sign [] = (False, [])"
| "take_sign (c # cs) =
     (if c = CHR ''-'' then (True, cs)
      else if c = CHR ''+'' then (False, cs)
      else (False, c # cs))"

text \<open>Base 16 accepts a \<open>0x\<close> or \<open>0X\<close> prefix, and one underscore after it.\<close>

fun skip_prefix :: "nat \<Rightarrow> string \<Rightarrow> string" where
  "skip_prefix base (z # x # cs) =
     (if base = 16 \<and> z = CHR ''0'' \<and> (x = CHR ''x'' \<or> x = CHR ''X'')
      then (case cs of u # r \<Rightarrow> if u = CHR ''_'' then r else cs | [] \<Rightarrow> cs)
      else z # x # cs)"
| "skip_prefix base cs = cs"

text \<open>
  The digit run: digits with single underscores between them; it neither starts nor ends
  with an underscore and has no two underscores in a row.
\<close>

fun underscores_ok :: "string \<Rightarrow> bool" where
  "underscores_ok [] = True"
| "underscores_ok [c] = (c \<noteq> CHR ''_'')"
| "underscores_ok (c # d # cs) =
     (\<not> (c = CHR ''_'' \<and> d = CHR ''_'') \<and> underscores_ok (d # cs))"

definition digits_value :: "nat \<Rightarrow> string \<Rightarrow> nat" where
  "digits_value base ds =
     foldl (\<lambda>a c. a * base + the (digit_value c)) 0 (filter (\<lambda>c. c \<noteq> CHR ''_'') ds)"

definition py_int :: "nat \<Rightarrow> string \<Rightarrow> py_error + int" where
  "py_int base s =
     (let (neg, s2) = take_sign (dropWhile is_int_space s);
          s3 = skip_prefix base s2;
          body = takeWhile (\<lambda>c. is_digit base c \<or> c = CHR ''_'') s3;
          rest = dropWhile (\<lambda>c. is_digit base c \<or> c = CHR ''_'') s3
      in if body = [] \<or> hd body = CHR ''_'' \<or> \<not> underscores_ok body
            \<or> dropWhile is_int_space rest \<noteq> []
         then Inl ValueError
         else Inr (if neg then - int (digits_value base body)
                   else int (digits_value base body)))"

text \<open>\<^verbatim>\<open>str(n)\<close> for an integer, as the f-string of the job id renders it.\<close>

definition digit_char :: "nat \<Rightarrow> char" where
  "digit_char d = ''0123456789'' ! d"

fun str_nat :: "nat \<Rightarrow> string" where
  "str_nat n = (if n < 10 then [digit_char n] else str_nat (n div 10) @ [digit_char (n mod 10)])"

definition str_int :: "int \<Rightarrow> string" where
  "str_int i = (if i < 0 then CHR ''-'' # str_nat (nat (- i)) else str_nat (nat i))"

section \<open>Results, effects and stores\<close>

text \<open>Sequencing of computations that may raise.\<close>

definition bind_result :: "py_error + 'a \<Rightarrow> ('a \<Rightarrow> py_error + 'b) \<Rightarrow> py_error + 'b" where
  "bind_result r f = (case r of Inl e \<Rightarrow> Inl e | Inr x \<Rightarrow> f x)"

text \<open>A comprehension \<^verbatim>\<open>[f(x) for x in xs]\<close>: the first element that raises ends it.\<close>

fun map_result :: "('a \<Rightarrow> py_error + 'b) \<Rightarrow> 'a list \<Rightarrow> py_error + 'b list" where
  "map_result f [] = Inr []"
| "map_result f (x # xs) =
     bind_result (f x) (\<lambda>y. bind_result (map_result f xs) (\<lambda>ys. Inr (y # ys)))"

text \<open>
  What a run of the code does to the outside: the HTTP requests it issues
  (\<^verbatim>\<open>http_requests.get(url, params=..., timeout=5)\<close>) and the records it logs. A log
  record keeps the level and the format string of the call; its arguments are not
  rendered.
\<close>

datatype level = INFO | WARNING | ERROR

datatype param = PInt int | PStr string

datatype event =
    Http string "(string \<times> param) list"
  | Log level string

text \<open>
  The device and the network between: what a GET of a URL with query parameters gives
  back, the body of the response or the exception \<^verbatim>\<open>requests\<close> raises.
\<close>

type_synonym network = "string \<Rightarrow> (string \<times> param) list \<Rightarrow> py_error + string"

text \<open>A run: its result (or the exception it ended with) and its events, in order.\<close>

type_synonym 'a run = "(py_error + 'a) \<times> event list"

definition return_run :: "'a \<Rightarrow> 'a run" where
  "return_run x = (Inr x, [])"

definition lift_run :: "py_error + 'a \<Rightarrow> 'a run" where
  "lift_run r = (r, [])"

definition bind_run :: "'a run \<Rightarrow> ('a \<Rightarrow> 'b run) \<Rightarrow> 'b run" where
  "bind_run m f =
     (case m of
        (Inl e, t) \<Rightarrow> (Inl e, t)
      | (Inr x, t) \<Rightarrow> (case f x of (r, t') \<Rightarrow> (r, t @ t')))"

definition http_get :: "network \<Rightarrow> string \<Rightarrow> (string \<times> param) list \<Rightarrow> string run" where
  "http_get net url params = (net url params, [Http url params])"

definition log_msg :: "level \<Rightarrow> string \<Rightarrow> unit run" where
  "log_msg lvl fmt = (Inr (), [Log lvl fmt])"

text \<open>
  \<^verbatim>\<open>try: body except http_requests.RequestException as e: handler\<close>: only that
  exception is caught; any other leaves the block.
\<close>

definition except_RequestException :: "unit run \<Rightarrow> unit run \<Rightarrow> unit run" where
  "except_RequestException body handler =
     (case body of
        (Inl e, t) \<Rightarrow>
          (if e = RequestException then (case handler of (r, t') \<Rightarrow> (r, t @ t'))
           else (Inl e, t))
      | (Inr x, t) \<Rightarrow> (Inr x, t))"

text \<open>A row of the table \<^verbatim>\<open>schedules\<close>, as \<^verbatim>\<open>dict(row)\<close> gives it.\<close>

record schedule =
  sched_id :: int
  name :: string
  time :: string
  days :: string
  action :: string
  relay :: int
  strip :: int
  brightness :: int
  color :: string
  enabled :: int

text \<open>The tables \<^verbatim>\<open>schedules\<close> (by primary key) and \<^verbatim>\<open>config\<close>.\<close>

type_synonym schedule_store = "int \<rightharpoonup> schedule"

type_synonym config_store = "string \<rightharpoonup> string"

definition get_config :: "config_store \<Rightarrow> string \<Rightarrow> string option" where
  "get_config config key = config key"

section \<open>ESP32 control\<close>

definition DAY_NAMES :: "string list" where
  "DAY_NAMES = [''mon'', ''tue'', ''wed'', ''thu'', ''fri'', ''sat'', ''sun'']"

text \<open>
  \<^verbatim>\<open>_set_relay(base_url, turn_on)\<close>, named \<open>set_relay\<close> here (a name cannot begin
  with an underscore), as \<^verbatim>\<open>_set_strip\<close> is \<open>set_strip\<close>.
\<close>

definition set_relay :: "network \<Rightarrow> string \<Rightarrow> bool \<Rightarrow> unit run" where
  "set_relay net base_url turn_on =
     except_RequestException
       (bind_run (http_get net (base_url @ ''/relaystatus'') []) (\<lambda>resp.
          let current = py_strip resp;
              desired = (if turn_on then ''ON'' else ''OFF'')
          in if current \<noteq> desired
             then bind_run (http_get net (base_url @ ''/relay'') []) (\<lambda>_.
                    log_msg INFO ''Relay toggled to %s'')
             else log_msg INFO ''Relay already %s''))
       (log_msg ERROR ''Relay control failed: %s'')"

text \<open>
  \<^verbatim>\<open>_set_strip(base_url, schedule)\<close>. Lines 114 to 128, which build \<^verbatim>\<open>params\<close>,
  are \<open>strip_params\<close>; they run inside the \<^verbatim>\<open>try\<close> block.
\<close>

definition strip_params :: "schedule \<Rightarrow> py_error + (string \<times> param) list" where
  "strip_params schedule =
     (if action schedule = ''on''
      then (let c = py_lstrip CHR ''#'' (color schedule) in
            bind_result (py_int 16 (py_slice 0 2 c)) (\<lambda>r.
            bind_result (py_int 16 (py_slice 2 4 c)) (\<lambda>g_val.
            bind_result (py_int 16 (py_slice 4 6 c)) (\<lambda>b.
            Inr [(''on'', PInt 1),
                 (''brightness'', PInt (brightness schedule)),
                 (''r'', PInt r),
                 (''g'', PInt g_val),
                 (''b'', PInt b),
                 (''mode'', PStr ''solid'')]))))
      else Inr [(''on'', PInt 0)])"

definition set_strip :: "network \<Rightarrow> string \<Rightarrow> schedule \<Rightarrow> unit run" where
  "set_strip net base_url schedule =
     except_RequestException
       (bind_run (lift_run (strip_params schedule)) (\<lambda>params.
        bind_run (http_get net (base_url @ ''/strip'') params) (\<lambda>_.
        log_msg INFO ''Strip set: %s'')))
       (log_msg ERROR ''Strip control failed: %s'')"

text \<open>
  \<^verbatim>\<open>execute_schedule(schedule_id)\<close>: \<^verbatim>\<open>if not base_url\<close> holds for a missing key
  and for the empty string; \<^verbatim>\<open>if schedule["relay"]\<close> holds for a non-zero integer.
\<close>

definition execute_schedule ::
  "schedule_store \<Rightarrow> config_store \<Rightarrow> network \<Rightarrow> int \<Rightarrow> unit run" where
  "execute_schedule store config net schedule_id =
     (case store schedule_id of
        None \<Rightarrow> log_msg WARNING ''Schedule %d not found''
      | Some schedule \<Rightarrow>
          (case get_config config ''esp32_url'' of
             None \<Rightarrow> log_msg ERROR ''ESP32 URL not configured''
           | Some base_url \<Rightarrow>
               if base_url = [] then log_msg ERROR ''ESP32 URL not configured''
               else
                 bind_run (log_msg INFO ''Executing schedule '%s' (action=%s)'') (\<lambda>_.
                 bind_run (if relay schedule \<noteq> 0
                           then set_relay net base_url (action schedule = ''on'')
                           else return_run ()) (\<lambda>_.
                 if strip schedule \<noteq> 0 then set_strip net base_url schedule
                 else return_run ()))))"

section \<open>Scheduler\<close>

subsection \<open>The library: cron triggers and the job table\<close>

text \<open>
  \<^verbatim>\<open>CronTrigger(day_of_week=..., hour=..., minute=...)\<close> of APScheduler: the
  day-of-week expression is a comma-separated list of the names \<open>mon\<close> ... \<open>sun\<close>,
  where \<open>mon\<close> is Monday; the hour is within 0..23 and the minute within 0..59. Anything
  else is refused with \<^verbatim>\<open>ValueError\<close>. (Ranges and steps of the expression language
  are left out: \<open>schedule_job\<close> never builds one.)
\<close>

datatype weekday = Monday | Tuesday | Wednesday | Thursday | Friday | Saturday | Sunday

definition WEEKDAYS :: "(string \<times> weekday) list" where
  "WEEKDAYS = [(''mon'', Monday), (''tue'', Tuesday), (''wed'', Wednesday),
               (''thu'', Thursday), (''fri'', Friday), (''sat'', Saturday),
               (''sun'', Sunday)]"

record cron_trigger =
  day_of_week :: "weekday list"
  hour :: int
  minute :: int

definition weekday_of_name :: "string \<Rightarrow> py_error + weekday" where
  "weekday_of_name n = (case map_of WEEKDAYS n of None \<Rightarrow> Inl ValueError | Some d \<Rightarrow> Inr d)"

definition CronTrigger :: "string \<Rightarrow> int \<Rightarrow> int \<Rightarrow> py_error + cron_trigger" where
  "CronTrigger dow h m =
     bind_result (map_result weekday_of_name (py_split CHR '','' dow)) (\<lambda>ds.
       if 0 \<le> h \<and> h \<le> 23 \<and> 0 \<le> m \<and> m \<le> 59
       then Inr \<lparr>day_of_week = ds, hour = h, minute = m\<rparr>
       else Inl ValueError)"

text \<open>
  A job of the scheduler: its id, its trigger and the argument its callback
  \<open>execute_schedule\<close> is called with.
\<close>

record job =
  jid :: string
  trigger :: cron_trigger
  args :: int

text \<open>
  The \<^verbatim>\<open>BackgroundScheduler\<close>: before \<^verbatim>\<open>start()\<close> the jobs are pending, in the order
  they were added; after it they are in the job store.
\<close>

record scheduler =
  running :: bool
  jobs :: "job list"

definition scheduler_init :: scheduler where
  "scheduler_init = \<lparr>running = False, jobs = []\<rparr>"

fun remove_first :: "string \<Rightarrow> job list \<Rightarrow> job list" where
  "remove_first i [] = []"
| "remove_first i (j # js) = (if jid j = i then js else j # remove_first i js)"

text \<open>\<^verbatim>\<open>scheduler.remove_job(job_id)\<close> raises \<^verbatim>\<open>JobLookupError\<close> for an unknown id.\<close>

definition remove_job :: "string \<Rightarrow> scheduler \<Rightarrow> py_error + scheduler" where
  "remove_job job_id sch =
     (if job_id \<in> set (map jid (jobs sch))
      then Inr (sch\<lparr>jobs := remove_first job_id (jobs sch)\<rparr>)
      else Inl JobLookupError)"

text \<open>
  \<^verbatim>\<open>scheduler.add_job(..., id=job_id, replace_existing=True)\<close>: a stopped scheduler
  appends the job to the pending ones; a running one replaces the job of the same id in
  the store, or adds it.
\<close>

definition add_job :: "job \<Rightarrow> scheduler \<Rightarrow> scheduler" where
  "add_job j sch =
     (if running sch \<and> jid j \<in> set (map jid (jobs sch))
      then sch\<lparr>jobs := map (\<lambda>k. if jid k = jid j then j else k) (jobs sch)\<rparr>
      else sch\<lparr>jobs := jobs sch @ [j]\<rparr>)"

text \<open>\<^verbatim>\<open>scheduler.start()\<close> moves the pending jobs into the store, one by one.\<close>

definition start :: "scheduler \<Rightarrow> py_error + scheduler" where
  "start sch =
     (if running sch then Inl OtherError
      else Inr (foldl (\<lambda>s j. add_job j s) \<lparr>running = True, jobs = []\<rparr> (jobs sch)))"

subsection \<open>\<^verbatim>\<open>schedule_job\<close>, \<^verbatim>\<open>update_schedule\<close>, \<^verbatim>\<open>delete_schedule\<close>\<close>

text \<open>Lines 140 and 141 of \<open>schedule_job\<close>: from the column \<open>days\<close> to the day names.\<close>

definition day_names_of :: "string \<Rightarrow> py_error + string" where
  "day_names_of ds =
     bind_result (map_result (py_int 10) (py_split CHR '','' ds)) (\<lambda>day_nums.
     bind_result (map_result (py_index DAY_NAMES) day_nums) (\<lambda>names.
     Inr (py_join '','' names)))"

text \<open>
  Lines 139 to 142 of \<open>schedule_job\<close>: the day names and the trigger.
  \<^verbatim>\<open>hour, minute = schedule["time"].split(":")\<close> raises \<^verbatim>\<open>ValueError\<close> unless there
  are exactly two parts.
\<close>

definition derive_trigger :: "schedule \<Rightarrow> py_error + string \<times> cron_trigger" where
  "derive_trigger schedule =
     (case py_split CHR '':'' (time schedule) of
        [hour_s, minute_s] \<Rightarrow>
          bind_result (day_names_of (days schedule)) (\<lambda>day_names.
          bind_result (py_int 10 hour_s) (\<lambda>h.
          bind_result (py_int 10 minute_s) (\<lambda>m.
          bind_result (CronTrigger day_names h m) (\<lambda>trigger.
          Inr (day_names, trigger)))))
      | _ \<Rightarrow> Inl ValueError)"

definition job_id_of :: "int \<Rightarrow> string" where
  "job_id_of i = ''schedule_'' @ str_int i"

text \<open>
  \<^verbatim>\<open>try: scheduler.remove_job(job_id) except Exception: pass\<close>, as \<open>schedule_job\<close> and
  \<open>delete_schedule\<close> both have it.
\<close>

definition remove_job_pass :: "string \<Rightarrow> scheduler \<Rightarrow> scheduler" where
  "remove_job_pass job_id sch = (case remove_job job_id sch of Inl e \<Rightarrow> sch | Inr sch' \<Rightarrow> sch')"

text \<open>\<^verbatim>\<open>schedule_job(schedule)\<close>, on the global scheduler.\<close>

definition schedule_job :: "schedule \<Rightarrow> scheduler \<Rightarrow> unit run \<times> scheduler" where
  "schedule_job schedule sch =
     (let job_id = job_id_of (sched_id schedule) in
      case derive_trigger schedule of
        Inl e \<Rightarrow> ((Inl e, []), sch)
      | Inr (day_names, trig) \<Rightarrow>
          (let sch1 = remove_job_pass job_id sch in
           if enabled schedule \<noteq> 0
           then (log_msg INFO ''Scheduled job '%s' at %s on %s'',
                 add_job \<lparr>jid = job_id, trigger = trig, args = sched_id schedule\<rparr> sch1)
           else (return_run (), sch1)))"

text \<open>
  The body of a PUT request (\<^verbatim>\<open>request.json\<close>): a key that is absent is \<open>None\<close>.
  \<^verbatim>\<open>data["name"]\<close> raises \<^verbatim>\<open>KeyError\<close> for an absent key, \<^verbatim>\<open>data.get(k, d)\<close> gives
  the default.
\<close>

record request_json =
  json_name :: "string option"
  json_time :: "string option"
  json_days :: "string option"
  json_action :: "string option"
  json_relay :: "int option"
  json_strip :: "int option"
  json_brightness :: "int option"
  json_color :: "string option"
  json_enabled :: "int option"

definition subscript :: "'a option \<Rightarrow> py_error + 'a" where
  "subscript v = (case v of None \<Rightarrow> Inl KeyError | Some x \<Rightarrow> Inr x)"

definition get_default :: "'a option \<Rightarrow> 'a \<Rightarrow> 'a" where
  "get_default v d = (case v of None \<Rightarrow> d | Some x \<Rightarrow> x)"

text \<open>
  \<^verbatim>\<open>update_schedule(sid)\<close>: the \<^verbatim>\<open>UPDATE ... WHERE id=?\<close> changes the row of that id
  if there is one; then \<^verbatim>\<open>dict(db.execute(SELECT ...).fetchone())\<close> raises
  \<^verbatim>\<open>TypeError\<close> when \<^verbatim>\<open>fetchone()\<close> is \<^verbatim>\<open>None\<close>. The result is the run, the
  store and the scheduler after the call.
\<close>

definition update_schedule ::
  "int \<Rightarrow> request_json \<Rightarrow> schedule_store \<Rightarrow> scheduler
     \<Rightarrow> (py_error + schedule) \<times> event list \<times> schedule_store \<times> scheduler" where
  "update_schedule sid data store sch =
     (case subscript (json_name data) of
        Inl e \<Rightarrow> (Inl e, [], store, sch)
      | Inr nm \<Rightarrow>
     (case subscript (json_time data) of
        Inl e \<Rightarrow> (Inl e, [], store, sch)
      | Inr tm \<Rightarrow>
          (let store' =
                 (if sid \<in> dom store
                  then store(sid \<mapsto>
                         \<lparr>sched_id = sid, name = nm, time = tm,
                          days = get_default (json_days data) ''0,1,2,3,4,5,6'',
                          action = get_default (json_action data) ''on'',
                          relay = get_default (json_relay data) 1,
                          strip = get_default (json_strip data) 1,
                          brightness = get_default (json_brightness data) 255,
                          color = get_default (json_color data) ''#ffffff'',
                          enabled = get_default (json_enabled data) 1\<rparr>)
                  else store)
           in case store' sid of
                None \<Rightarrow> (Inl TypeError, [], store', sch)
              | Some schedule \<Rightarrow>
                  (case schedule_job schedule sch of
                     ((Inl e, evs), sch') \<Rightarrow> (Inl e, evs, store', sch')
                   | ((Inr u, evs), sch') \<Rightarrow> (Inr schedule, evs, store', sch')))))"

text \<open>\<^verbatim>\<open>delete_schedule(sid)\<close>\<close>

definition delete_schedule ::
  "int \<Rightarrow> schedule_store \<Rightarrow> scheduler \<Rightarrow> schedule_store \<times> scheduler" where
  "delete_schedule sid store sch =
     (store(sid := None), remove_job_pass (job_id_of sid) sch)"

section \<open>What the properties are stated with\<close>

subsection \<open>Observations on a run and on the job table\<close>

fun is_http :: "event \<Rightarrow> bool" where
  "is_http (Http url params) = True"
| "is_http (Log lvl fmt) = False"

text \<open>The device calls of a run, in order.\<close>

definition http_calls :: "event list \<Rightarrow> event list" where
  "http_calls evs = filter is_http evs"

text \<open>The relay toggle calls of a run: GET \<^verbatim>\<open>{base_url}/relay\<close>.\<close>

definition toggle_calls :: "string \<Rightarrow> event list \<Rightarrow> event list" where
  "toggle_calls base_url evs = filter (\<lambda>ev. ev = Http (base_url @ ''/relay'') []) evs"

text \<open>The ids of the jobs of a scheduler, and the number of jobs registered under an id.\<close>

definition ids :: "scheduler \<Rightarrow> string list" where
  "ids sch = map jid (jobs sch)"

definition count_jobs :: "string \<Rightarrow> scheduler \<Rightarrow> nat" where
  "count_jobs i sch = length (filter (\<lambda>j. jid j = i) (jobs sch))"

text \<open>
  What the callers of server.py do to the scheduler: \<open>create_schedule\<close>,
  \<open>update_schedule\<close> and \<open>load_all_schedules\<close> call \<open>schedule_job\<close> (an exception it
  raises ends the request, the scheduler stays as it is), \<open>delete_schedule\<close> removes the
  job, and the main program starts the scheduler.
\<close>

datatype scheduler_call = Reconcile schedule | Remove int | Start

fun apply_call :: "scheduler \<Rightarrow> scheduler_call \<Rightarrow> scheduler" where
  "apply_call sch (Reconcile schedule) = snd (schedule_job schedule sch)"
| "apply_call sch (Remove sid) = remove_job_pass (job_id_of sid) sch"
| "apply_call sch Start = (case start sch of Inl e \<Rightarrow> sch | Inr sch' \<Rightarrow> sch')"

definition run_calls :: "scheduler_call list \<Rightarrow> scheduler" where
  "run_calls cs = foldl apply_call scheduler_init cs"

subsection \<open>Well-formed columns, in the words of the data model\<close>

text \<open>The weekdays in order: index 0 is Monday, index 6 is Sunday.\<close>

definition week :: "weekday list" where
  "week = [Monday, Tuesday, Wednesday, Thursday, Friday, Saturday, Sunday]"

definition dec :: "char \<Rightarrow> bool" where
  "dec c = (c \<in> set ''0123456789'')"

definition hex :: "char \<Rightarrow> bool" where
  "hex c = (c \<in> set ''0123456789abcdefABCDEF'')"

text \<open>The number two digits stand for, in a base.\<close>

definition pair_value :: "nat \<Rightarrow> char \<Rightarrow> char \<Rightarrow> int" where
  "pair_value base a b = int (base * the (digit_value a) + the (digit_value b))"

text \<open>\<open>time\<close>: \<open>HH:MM\<close>, 24-hour.\<close>

fun valid_time :: "string \<Rightarrow> bool" where
  "valid_time [h1, h2, sep, m1, m2] =
     (dec h1 \<and> dec h2 \<and> sep = CHR '':'' \<and> dec m1 \<and> dec m2
      \<and> pair_value 10 h1 h2 < 24 \<and> pair_value 10 m1 m2 < 60)"
| "valid_time t = False"

text \<open>\<open>days\<close>: weekday indices within 0..6, separated by commas, at least one.\<close>

fun valid_days :: "string \<Rightarrow> bool" where
  "valid_days [] = False"
| "valid_days [d] = (d \<in> set ''0123456'')"
| "valid_days (d # sep # ds) = (d \<in> set ''0123456'' \<and> sep = CHR '','' \<and> valid_days ds)"

text \<open>What a well-formed \<open>time\<close> and \<open>days\<close> stand for.\<close>

definition time_hour :: "string \<Rightarrow> int" where
  "time_hour t = pair_value 10 (t ! 0) (t ! 1)"

definition time_minute :: "string \<Rightarrow> int" where
  "time_minute t = pair_value 10 (t ! 3) (t ! 4)"

definition day_indices :: "string \<Rightarrow> nat list" where
  "day_indices ds = map (\<lambda>c. the (digit_value c)) (filter (\<lambda>c. c \<noteq> CHR '','') ds)"

text \<open>\<open>color\<close>: six hexadecimal digits, with or without a \<open>#\<close> before them.\<close>

definition hex_digits :: "string \<Rightarrow> string" where
  "hex_digits c = (case c of [] \<Rightarrow> [] | x # xs \<Rightarrow> if x = CHR ''#'' then xs else c)"

definition valid_color :: "string \<Rightarrow> bool" where
  "valid_color c = (length (hex_digits c) = 6 \<and> list_all hex (hex_digits c))"

text \<open>The three components: the three pairs of digits, each read in base 16.\<close>

definition rgb :: "string \<Rightarrow> int \<times> int \<times> int" where
  "rgb c = (let h = hex_digits c
            in (pair_value 16 (h ! 0) (h ! 1),
                pair_value 16 (h ! 2) (h ! 3),
                pair_value 16 (h ! 4) (h ! 5)))"

subsection \<open>A schedule to evaluate with\<close>

definition evening :: schedule where
  "evening = \<lparr>sched_id = 1, name = ''Evening'', time = ''18:30'', days = ''0,1,2,3,4'',
              action = ''on'', relay = 1, strip = 1, brightness = 128,
              color = ''#112233'', enabled = 1\<rparr>"

definition device_url :: config_store where
  "device_url = [''esp32_url'' \<mapsto> ''http://192.168.1.100'']"

text \<open>A device that cannot be reached, and one whose relay reports \<open>ON\<close>.\<close>

definition unreachable :: network where
  "unreachable url params = Inl RequestException"

definition relay_is_on :: network where
  "relay_is_on url params = Inr ''ON''"

text \<open>A device that answers the status call with \<open>ON\<close> and no other call.\<close>

definition only_status :: network where
  "only_status url params =
     (if url = ''http://192.168.1.100/relaystatus'' then Inr ''ON'' else Inl RequestException)"

section \<open>Reading digits\<close>

text \<open>
  \<^verbatim>\<open>int\<close> on a string of digits of the base gives the number they stand for: no sign,
  prefix, underscore or white space is involved.
\<close>

lemma is_digit_cases:
  "is_digit base c \<Longrightarrow> c \<in> set ''0123456789abcdefABCDEF''"
  by (simp add: is_digit_def digit_value_def split: if_splits)

lemma is_digit_not_special:
  assumes "is_digit base c"
  shows "\<not> is_int_space c" "c \<noteq> CHR ''-''" "c \<noteq> CHR ''+''" "c \<noteq> CHR ''_''"
    "c \<noteq> CHR ''x''" "c \<noteq> CHR ''X''" "c \<noteq> CHR ''#''" "c \<noteq> CHR '':''" "c \<noteq> CHR '',''"
  using is_digit_cases [OF assms] by (auto simp: is_int_space_def)

lemma underscores_ok_digits:
  "list_all (is_digit base) ds \<Longrightarrow> underscores_ok ds"
  by (induction ds rule: underscores_ok.induct) (auto dest: is_digit_not_special)

lemma skip_prefix_digits:
  "list_all (is_digit base) ds \<Longrightarrow> skip_prefix base ds = ds"
  by (cases "(base, ds)" rule: skip_prefix.cases) (auto dest: is_digit_not_special)

lemma py_int_digits:
  assumes "ds \<noteq> []" "list_all (is_digit base) ds"
  shows "py_int base ds = Inr (int (foldl (\<lambda>a c. a * base + the (digit_value c)) 0 ds))"
proof -
  obtain c cs where ds: "ds = c # cs" using assms(1) by (cases ds) auto
  have c: "is_digit base c" using assms(2) ds by simp
  have 1: "dropWhile is_int_space ds = ds"
    using c ds is_digit_not_special(1) by simp
  have 2: "take_sign ds = (False, ds)"
    using c ds is_digit_not_special(2,3) by simp
  have 3: "skip_prefix base ds = ds" by (rule skip_prefix_digits [OF assms(2)])
  have all: "\<forall>x\<in>set ds. is_digit base x \<or> x = CHR ''_''"
    using assms(2) by (simp add: list_all_iff)
  have 4: "takeWhile (\<lambda>c. is_digit base c \<or> c = CHR ''_'') ds = ds"
    using all by simp
  have 5: "dropWhile (\<lambda>c. is_digit base c \<or> c = CHR ''_'') ds = []"
    using all by simp
  have 6: "filter (\<lambda>c. c \<noteq> CHR ''_'') ds = ds"
    using assms(2) by (auto simp: list_all_iff filter_id_conv dest: is_digit_not_special(4))
  have 7: "hd ds \<noteq> CHR ''_''" using c ds is_digit_not_special(4) by simp
  show ?thesis
    using assms(1) 7 underscores_ok_digits [OF assms(2)]
    by (simp add: py_int_def 1 2 3 4 5 6 digits_value_def)
qed


lemma hex_is_digit: "hex c \<Longrightarrow> is_digit 16 c"
  by (auto simp: hex_def) (simp_all add: is_digit_def digit_value_def)

lemma dec_is_digit: "dec c \<Longrightarrow> is_digit 10 c"
  by (auto simp: dec_def) (simp_all add: is_digit_def digit_value_def)

lemma py_int_pair:
  assumes "is_digit base a" "is_digit base b"
  shows "py_int base [a, b] = Inr (pair_value base a b)"
  using py_int_digits [of "[a, b]" base] assms by (simp add: pair_value_def)

lemma hex_digit_value: "hex a \<Longrightarrow> the (digit_value a) \<le> 15"
  by (auto simp: hex_def) (simp_all add: digit_value_def)

lemma hex_pair_range: "hex a \<Longrightarrow> hex b \<Longrightarrow> 0 \<le> pair_value 16 a b \<and> pair_value 16 a b \<le> 255"
  using hex_digit_value [of a] hex_digit_value [of b] by (simp add: pair_value_def)

lemma length_6:
  assumes "length h = 6"
  obtains a b c d e f where "h = [a, b, c, d, e, f]"
proof -
  from assms obtain a h1 where 1: "h = a # h1" "length h1 = 5" by (cases h) auto
  then obtain b h2 where 2: "h1 = b # h2" "length h2 = 4" by (cases h1) auto
  then obtain c h3 where 3: "h2 = c # h3" "length h3 = 3" by (cases h2) auto
  then obtain d h4 where 4: "h3 = d # h4" "length h4 = 2" by (cases h3) auto
  then obtain e h5 where 5: "h4 = e # h5" "length h5 = 1" by (cases h4) auto
  then obtain f where 6: "h5 = [f]" by (cases h5) auto
  show ?thesis using that 1 2 3 4 5 6 by simp
qed

section \<open>Properties of the device control\<close>

subsection \<open>The strip step\<close>

lemma lstrip_valid_color:
  assumes "valid_color c"
  shows "py_lstrip CHR ''#'' c = hex_digits c"
proof -
  obtain a r where h: "hex_digits c = a # r" "hex a"
    using assms by (cases "hex_digits c") (auto simp: valid_color_def)
  have a: "a \<noteq> CHR ''#''"
    using h(2) by (auto simp: hex_def)
  show ?thesis
  proof (cases c)
    case Nil
    then show ?thesis using h by (simp add: hex_digits_def)
  next
    case (Cons x xs)
    then show ?thesis using h a by (auto simp: hex_digits_def py_lstrip_def split: if_splits)
  qed
qed

lemma strip_params_valid_color:
  assumes "valid_color (color s)" "action s = ''on''"
  shows "strip_params s =
           Inr [(''on'', PInt 1), (''brightness'', PInt (brightness s)),
                (''r'', PInt (fst (rgb (color s)))),
                (''g'', PInt (fst (snd (rgb (color s))))),
                (''b'', PInt (snd (snd (rgb (color s))))),
                (''mode'', PStr ''solid'')]"
proof -
  have len: "length (hex_digits (color s)) = 6" and all: "list_all hex (hex_digits (color s))"
    using assms(1) by (simp_all add: valid_color_def)
  obtain a b c d e f where h: "hex_digits (color s) = [a, b, c, d, e, f]"
    using len by (rule length_6)
  have dg: "is_digit 16 a" "is_digit 16 b" "is_digit 16 c" "is_digit 16 d" "is_digit 16 e"
    "is_digit 16 f"
    using all h by (simp_all add: hex_is_digit)
  show ?thesis
    using assms(2) dg
    by (simp add: strip_params_def lstrip_valid_color [OF assms(1)] h py_slice_def
          bind_result_def py_int_pair rgb_def)
qed

lemma rgb_range:
  assumes "valid_color c"
  shows "0 \<le> fst (rgb c) \<and> fst (rgb c) \<le> 255
       \<and> 0 \<le> fst (snd (rgb c)) \<and> fst (snd (rgb c)) \<le> 255
       \<and> 0 \<le> snd (snd (rgb c)) \<and> snd (snd (rgb c)) \<le> 255"
proof -
  have len: "length (hex_digits c) = 6" and all: "list_all hex (hex_digits c)"
    using assms(1) by (simp_all add: valid_color_def)
  obtain a b c' d e f where h: "hex_digits c = [a, b, c', d, e, f]"
    using len by (rule length_6)
  show ?thesis
    using all h hex_pair_range [of a b] hex_pair_range [of c' d] hex_pair_range [of e f]
    by (simp add: rgb_def)
qed

lemma set_strip_sends:
  "strip_params s = Inr params \<Longrightarrow>
     \<exists>r evs. set_strip net base_url s = (r, Http (base_url @ ''/strip'') params # evs)"
  by (auto simp: set_strip_def except_RequestException_def bind_run_def lift_run_def
        http_get_def log_msg_def split: sum.splits)

lemma set_strip_calls:
  "strip_params s = Inr params \<Longrightarrow>
     http_calls (snd (set_strip net base_url s)) = [Http (base_url @ ''/strip'') params]"
  by (simp add: set_strip_def except_RequestException_def bind_run_def lift_run_def
        http_get_def log_msg_def http_calls_def split: sum.splits)

text \<open>
  C4. For a color of six hexadecimal digits, with or without \<open>#\<close> before them, the strip
  step with action on sends one request with \<open>on = 1\<close>, the brightness, the three
  components read from the three pairs of digits in base 16 (each within 0..255) and
  \<open>mode = solid\<close>; \<open>#ff0000\<close> gives 255, 0, 0 and \<open>00ff00\<close> gives 0, 255, 0. With action
  off it sends \<open>on = 0\<close>.
\<close>

theorem set_strip_decodes_color:
  "(valid_color (color s) \<longrightarrow> action s = ''on'' \<longrightarrow>
      http_calls (snd (set_strip net base_url s))
        = [Http (base_url @ ''/strip'')
             [(''on'', PInt 1), (''brightness'', PInt (brightness s)),
              (''r'', PInt (fst (rgb (color s)))),
              (''g'', PInt (fst (snd (rgb (color s))))),
              (''b'', PInt (snd (snd (rgb (color s))))),
              (''mode'', PStr ''solid'')]]
      \<and> 0 \<le> fst (rgb (color s)) \<and> fst (rgb (color s)) \<le> 255
      \<and> 0 \<le> fst (snd (rgb (color s))) \<and> fst (snd (rgb (color s))) \<le> 255
      \<and> 0 \<le> snd (snd (rgb (color s))) \<and> snd (snd (rgb (color s))) \<le> 255)
   \<and> http_calls (snd (set_strip net base_url (s\<lparr>action := ''on'', color := ''#ff0000''\<rparr>)))
        = [Http (base_url @ ''/strip'')
             [(''on'', PInt 1), (''brightness'', PInt (brightness s)),
              (''r'', PInt 255), (''g'', PInt 0), (''b'', PInt 0), (''mode'', PStr ''solid'')]]
   \<and> http_calls (snd (set_strip net base_url (s\<lparr>action := ''on'', color := ''00ff00''\<rparr>)))
        = [Http (base_url @ ''/strip'')
             [(''on'', PInt 1), (''brightness'', PInt (brightness s)),
              (''r'', PInt 0), (''g'', PInt 255), (''b'', PInt 0), (''mode'', PStr ''solid'')]]
   \<and> (action s = ''off'' \<longrightarrow>
        http_calls (snd (set_strip net base_url s))
          = [Http (base_url @ ''/strip'') [(''on'', PInt 0)]])"
proof -
  have general: "valid_color (color s) \<Longrightarrow> action s = ''on'' \<Longrightarrow>
      http_calls (snd (set_strip net base_url s))
        = [Http (base_url @ ''/strip'')
             [(''on'', PInt 1), (''brightness'', PInt (brightness s)),
              (''r'', PInt (fst (rgb (color s)))),
              (''g'', PInt (fst (snd (rgb (color s))))),
              (''b'', PInt (snd (snd (rgb (color s))))),
              (''mode'', PStr ''solid'')]]"
    by (rule set_strip_calls) (rule strip_params_valid_color)
  have v1: "valid_color ''#ff0000''" and v2: "valid_color ''00ff00''"
    by (simp_all add: valid_color_def hex_digits_def hex_def)
  have r1: "rgb ''#ff0000'' = (255, 0, 0)" and r2: "rgb ''00ff00'' = (0, 255, 0)"
    by (simp_all add: rgb_def hex_digits_def pair_value_def digit_value_def)
  have red: "strip_params (s\<lparr>action := ''on'', color := ''#ff0000''\<rparr>)
      = Inr [(''on'', PInt 1), (''brightness'', PInt (brightness s)),
              (''r'', PInt 255), (''g'', PInt 0), (''b'', PInt 0), (''mode'', PStr ''solid'')]"
    using strip_params_valid_color [of "s\<lparr>action := ''on'', color := ''#ff0000''\<rparr>"] v1 r1
    by simp
  have green: "strip_params (s\<lparr>action := ''on'', color := ''00ff00''\<rparr>)
      = Inr [(''on'', PInt 1), (''brightness'', PInt (brightness s)),
              (''r'', PInt 0), (''g'', PInt 255), (''b'', PInt 0), (''mode'', PStr ''solid'')]"
    using strip_params_valid_color [of "s\<lparr>action := ''on'', color := ''00ff00''\<rparr>"] v2 r2
    by simp
  have off: "action s = ''off'' \<Longrightarrow>
      http_calls (snd (set_strip net base_url s)) = [Http (base_url @ ''/strip'') [(''on'', PInt 0)]]"
    by (rule set_strip_calls) (simp add: strip_params_def)
  show ?thesis
    using general rgb_range [of "color s"] set_strip_calls [OF red] set_strip_calls [OF green] off
    by simp
qed

theorem set_strip_decodes_color_witness:
  "valid_color (color evening) \<and> action evening = ''on''
   \<and> http_calls (snd (set_strip unreachable ''http://192.168.1.100'' evening))
        = [Http ''http://192.168.1.100/strip''
             [(''on'', PInt 1), (''brightness'', PInt 128),
              (''r'', PInt 17), (''g'', PInt 34), (''b'', PInt 51), (''mode'', PStr ''solid'')]]
   \<and> action (evening\<lparr>action := ''off''\<rparr>) = ''off''
   \<and> http_calls (snd (set_strip unreachable ''http://192.168.1.100'' (evening\<lparr>action := ''off''\<rparr>)))
        = [Http ''http://192.168.1.100/strip'' [(''on'', PInt 0)]]"
proof -
  have v: "valid_color (color evening)"
    by (simp add: evening_def valid_color_def hex_digits_def hex_def)
  have a: "action evening = ''on''" and b: "brightness evening = 128"
    by (simp_all add: evening_def)
  have r: "rgb (color evening) = (17, 34, 51)"
    by (simp add: evening_def rgb_def hex_digits_def pair_value_def digit_value_def)
  have o: "action (evening\<lparr>action := ''off''\<rparr>) = ''off''"
    by simp
  show ?thesis
    using v a b r o
      set_strip_decodes_color [of evening unreachable "''http://192.168.1.100''"]
      set_strip_decodes_color [of "evening\<lparr>action := ''off''\<rparr>" unreachable
        "''http://192.168.1.100''"]
    by simp
qed

subsection \<open>The relay step and \<open>execute_schedule\<close>\<close>

text \<open>
  C2. With a reachable device (the status call returns a body): when the trimmed body
  already is the desired state, \<open>ON\<close> for on and \<open>OFF\<close> for off, the relay step issues
  no toggle call; when it differs, it issues exactly one.
\<close>

theorem set_relay_toggles:
  "net (base_url @ ''/relaystatus'') [] = Inr body \<Longrightarrow>
     length (toggle_calls base_url (snd (set_relay net base_url turn_on)))
       = (if py_strip body = (if turn_on then ''ON'' else ''OFF'') then 0 else 1)"
  by (simp add: set_relay_def except_RequestException_def bind_run_def http_get_def
        log_msg_def toggle_calls_def Let_def split: sum.splits)

theorem set_relay_toggles_witness:
  "relay_is_on (''http://192.168.1.100'' @ ''/relaystatus'') [] = Inr ''ON''
   \<and> length (toggle_calls ''http://192.168.1.100''
        (snd (set_relay relay_is_on ''http://192.168.1.100'' True))) = 0
   \<and> length (toggle_calls ''http://192.168.1.100''
        (snd (set_relay relay_is_on ''http://192.168.1.100'' False))) = 1"
proof -
  have h: "relay_is_on (''http://192.168.1.100'' @ ''/relaystatus'') [] = Inr ''ON''"
    by (simp add: relay_is_on_def)
  have s: "py_strip ''ON'' = ''ON''"
    by (simp add: py_strip_def is_space_def)
  show ?thesis
    using h s
      set_relay_toggles [of relay_is_on "''http://192.168.1.100''" "''ON''" True]
      set_relay_toggles [of relay_is_on "''http://192.168.1.100''" "''ON''" False]
    by simp
qed

text \<open>How the two steps make up a run of \<open>execute_schedule\<close>, and how each one fails.\<close>

lemma execute_schedule_steps:
  assumes "store schedule_id = Some schedule" "config ''esp32_url'' = Some base_url"
    "base_url \<noteq> []" "relay schedule \<noteq> 0" "strip schedule \<noteq> 0"
    "fst (set_relay net base_url (action schedule = ''on'')) = Inr ()"
  shows "execute_schedule store config net schedule_id =
           (fst (set_strip net base_url schedule),
            Log INFO ''Executing schedule '%s' (action=%s)''
              # snd (set_relay net base_url (action schedule = ''on''))
              @ snd (set_strip net base_url schedule))"
  using assms
  by (cases "set_relay net base_url (action schedule = ''on'')";
      cases "set_strip net base_url schedule")
     (simp add: execute_schedule_def get_config_def bind_run_def log_msg_def)

lemma set_relay_status_fails:
  "net (base_url @ ''/relaystatus'') [] = Inl RequestException \<Longrightarrow>
     set_relay net base_url turn_on =
       (Inr (), [Http (base_url @ ''/relaystatus'') [], Log ERROR ''Relay control failed: %s''])"
  by (simp add: set_relay_def except_RequestException_def bind_run_def http_get_def log_msg_def)

lemma set_relay_toggle_fails:
  "net (base_url @ ''/relaystatus'') [] = Inr body \<Longrightarrow>
   py_strip body \<noteq> (if turn_on then ''ON'' else ''OFF'') \<Longrightarrow>
   net (base_url @ ''/relay'') [] = Inl RequestException \<Longrightarrow>
     set_relay net base_url turn_on =
       (Inr (), [Http (base_url @ ''/relaystatus'') [], Http (base_url @ ''/relay'') [],
                 Log ERROR ''Relay control failed: %s''])"
  by (simp add: set_relay_def except_RequestException_def bind_run_def http_get_def log_msg_def
        Let_def)

lemma set_strip_fails:
  "strip_params schedule = Inr params \<Longrightarrow>
   net (base_url @ ''/strip'') params = Inl RequestException \<Longrightarrow>
     set_strip net base_url schedule =
       (Inr (), [Http (base_url @ ''/strip'') params, Log ERROR ''Strip control failed: %s''])"
  by (simp add: set_strip_def except_RequestException_def bind_run_def lift_run_def
        http_get_def log_msg_def)

lemma set_strip_off:
  "action schedule \<noteq> ''on'' \<Longrightarrow>
     http_calls (snd (set_strip net base_url schedule))
       = [Http (base_url @ ''/strip'') [(''on'', PInt 0)]]"
  by (rule set_strip_calls) (simp add: strip_params_def)

text \<open>
  C3. For a stored schedule with relay and strip both set and a configured device URL:
  when the relay step meets a transport error, at the status call or at the toggle call,
  the error is logged and the strip step runs all the same, and with action off the
  request \<open>on = 0\<close> is still sent after a status call that failed; when the strip request
  meets a transport error, the relay step has run as it would alone, the error is logged
  and \<open>execute_schedule\<close> returns normally.
\<close>

theorem sub_steps_do_not_block:
  assumes "store schedule_id = Some schedule" "config ''esp32_url'' = Some base_url"
    "base_url \<noteq> []" "relay schedule \<noteq> 0" "strip schedule \<noteq> 0"
  shows
    "(net (base_url @ ''/relaystatus'') [] = Inl RequestException \<longrightarrow>
        execute_schedule store config net schedule_id =
          (fst (set_strip net base_url schedule),
           [Log INFO ''Executing schedule '%s' (action=%s)'',
            Http (base_url @ ''/relaystatus'') [],
            Log ERROR ''Relay control failed: %s'']
           @ snd (set_strip net base_url schedule))
        \<and> (action schedule = ''off'' \<longrightarrow>
             http_calls (snd (execute_schedule store config net schedule_id))
               = [Http (base_url @ ''/relaystatus'') [],
                  Http (base_url @ ''/strip'') [(''on'', PInt 0)]]))
     \<and> (net (base_url @ ''/relaystatus'') [] = Inr body \<longrightarrow>
        py_strip body \<noteq> (if action schedule = ''on'' then ''ON'' else ''OFF'') \<longrightarrow>
        net (base_url @ ''/relay'') [] = Inl RequestException \<longrightarrow>
          execute_schedule store config net schedule_id =
            (fst (set_strip net base_url schedule),
             [Log INFO ''Executing schedule '%s' (action=%s)'',
              Http (base_url @ ''/relaystatus'') [],
              Http (base_url @ ''/relay'') [],
              Log ERROR ''Relay control failed: %s'']
             @ snd (set_strip net base_url schedule)))
     \<and> (strip_params schedule = Inr params \<longrightarrow>
        net (base_url @ ''/strip'') params = Inl RequestException \<longrightarrow>
        fst (set_relay net base_url (action schedule = ''on'')) = Inr () \<longrightarrow>
          execute_schedule store config net schedule_id =
            (Inr (),
             Log INFO ''Executing schedule '%s' (action=%s)''
               # snd (set_relay net base_url (action schedule = ''on''))
               @ [Http (base_url @ ''/strip'') params,
                  Log ERROR ''Strip control failed: %s'']))"
proof -
  have steps: "fst (set_relay net base_url (action schedule = ''on'')) = Inr () \<Longrightarrow>
      execute_schedule store config net schedule_id =
        (fst (set_strip net base_url schedule),
         Log INFO ''Executing schedule '%s' (action=%s)''
           # snd (set_relay net base_url (action schedule = ''on''))
           @ snd (set_strip net base_url schedule))"
    using assms by (rule execute_schedule_steps)
  have a: "net (base_url @ ''/relaystatus'') [] = Inl RequestException \<Longrightarrow>
      execute_schedule store config net schedule_id =
          (fst (set_strip net base_url schedule),
           [Log INFO ''Executing schedule '%s' (action=%s)'',
            Http (base_url @ ''/relaystatus'') [],
            Log ERROR ''Relay control failed: %s'']
           @ snd (set_strip net base_url schedule))"
    using steps set_relay_status_fails [of net base_url "action schedule = ''on''"] by simp
  have a': "net (base_url @ ''/relaystatus'') [] = Inl RequestException \<Longrightarrow>
      action schedule = ''off'' \<Longrightarrow>
        http_calls (snd (execute_schedule store config net schedule_id))
               = [Http (base_url @ ''/relaystatus'') [],
                  Http (base_url @ ''/strip'') [(''on'', PInt 0)]]"
    using a set_strip_off [of schedule net base_url] by (simp add: http_calls_def)
  have b: "net (base_url @ ''/relaystatus'') [] = Inr body \<Longrightarrow>
        py_strip body \<noteq> (if action schedule = ''on'' then ''ON'' else ''OFF'') \<Longrightarrow>
        net (base_url @ ''/relay'') [] = Inl RequestException \<Longrightarrow>
          execute_schedule store config net schedule_id =
            (fst (set_strip net base_url schedule),
             [Log INFO ''Executing schedule '%s' (action=%s)'',
              Http (base_url @ ''/relaystatus'') [],
              Http (base_url @ ''/relay'') [],
              Log ERROR ''Relay control failed: %s'']
             @ snd (set_strip net base_url schedule))"
    using steps set_relay_toggle_fails [of net base_url body "action schedule = ''on''"] by simp
  have c: "strip_params schedule = Inr params \<Longrightarrow>
        net (base_url @ ''/strip'') params = Inl RequestException \<Longrightarrow>
        fst (set_relay net base_url (action schedule = ''on'')) = Inr () \<Longrightarrow>
          execute_schedule store config net schedule_id =
            (Inr (),
             Log INFO ''Executing schedule '%s' (action=%s)''
               # snd (set_relay net base_url (action schedule = ''on''))
               @ [Http (base_url @ ''/strip'') params,
                  Log ERROR ''Strip control failed: %s''])"
    using steps set_strip_fails [of schedule params net base_url] by simp
  show ?thesis
    using a a' b c by blast
qed


theorem sub_steps_do_not_block_witness:
  "[1 \<mapsto> evening\<lparr>action := ''off''\<rparr>] (1::int) = Some (evening\<lparr>action := ''off''\<rparr>)
   \<and> device_url ''esp32_url'' = Some ''http://192.168.1.100''
   \<and> relay (evening\<lparr>action := ''off''\<rparr>) \<noteq> 0 \<and> strip (evening\<lparr>action := ''off''\<rparr>) \<noteq> 0
   \<and> action (evening\<lparr>action := ''off''\<rparr>) = ''off''
   \<and> unreachable (''http://192.168.1.100'' @ ''/relaystatus'') [] = Inl RequestException
   \<and> execute_schedule [1 \<mapsto> evening\<lparr>action := ''off''\<rparr>] device_url unreachable 1
       = (Inr (),
          [Log INFO ''Executing schedule '%s' (action=%s)'',
           Http ''http://192.168.1.100/relaystatus'' [],
           Log ERROR ''Relay control failed: %s'',
           Http ''http://192.168.1.100/strip'' [(''on'', PInt 0)],
           Log ERROR ''Strip control failed: %s''])
   \<and> http_calls (snd (execute_schedule [1 \<mapsto> evening\<lparr>action := ''off''\<rparr>] device_url unreachable 1))
       = [Http ''http://192.168.1.100/relaystatus'' [],
          Http ''http://192.168.1.100/strip'' [(''on'', PInt 0)]]
   \<and> only_status (''http://192.168.1.100'' @ ''/relaystatus'') [] = Inr ''ON''
   \<and> only_status (''http://192.168.1.100'' @ ''/relay'') [] = Inl RequestException
   \<and> execute_schedule [1 \<mapsto> evening\<lparr>action := ''off''\<rparr>] device_url only_status 1
       = (Inr (),
          [Log INFO ''Executing schedule '%s' (action=%s)'',
           Http ''http://192.168.1.100/relaystatus'' [],
           Http ''http://192.168.1.100/relay'' [],
           Log ERROR ''Relay control failed: %s'',
           Http ''http://192.168.1.100/strip'' [(''on'', PInt 0)],
           Log ERROR ''Strip control failed: %s''])"
proof -
  let ?s = "evening\<lparr>action := ''off''\<rparr>"
  let ?b = "''http://192.168.1.100''"
  have h: "[1 \<mapsto> ?s] (1::int) = Some ?s" "device_url ''esp32_url'' = Some ?b" "?b \<noteq> []"
    "relay ?s \<noteq> 0" "strip ?s \<noteq> 0" "action ?s = ''off''"
    by (simp_all add: device_url_def evening_def)
  have n1: "unreachable (?b @ ''/relaystatus'') [] = Inl RequestException"
    by (simp add: unreachable_def)
  have n2: "only_status (?b @ ''/relaystatus'') [] = Inr ''ON''"
    "only_status (?b @ ''/relay'') [] = Inl RequestException"
    by (simp_all add: only_status_def)
  have p: "py_strip ''ON'' \<noteq> ''OFF''"
    by (simp add: py_strip_def is_space_def)
  have sp: "strip_params ?s = Inr [(''on'', PInt 0)]"
    by (simp add: strip_params_def)
  have n3: "unreachable (?b @ ''/strip'') [(''on'', PInt 0)] = Inl RequestException"
    "only_status (?b @ ''/strip'') [(''on'', PInt 0)] = Inl RequestException"
    by (simp_all add: unreachable_def only_status_def)
  have r1: "set_relay unreachable ?b (action ?s = ''on'')
      = (Inr (), [Http (?b @ ''/relaystatus'') [], Log ERROR ''Relay control failed: %s''])"
    using n1 by (rule set_relay_status_fails)
  have s1: "set_strip unreachable ?b ?s
      = (Inr (), [Http (?b @ ''/strip'') [(''on'', PInt 0)], Log ERROR ''Strip control failed: %s''])"
    using sp n3(1) by (rule set_strip_fails)
  have s2: "set_strip only_status ?b ?s
      = (Inr (), [Http (?b @ ''/strip'') [(''on'', PInt 0)], Log ERROR ''Strip control failed: %s''])"
    using sp n3(2) by (rule set_strip_fails)
  have w1: "execute_schedule [1 \<mapsto> ?s] device_url unreachable 1
       = (Inr (),
          [Log INFO ''Executing schedule '%s' (action=%s)'',
           Http ''http://192.168.1.100/relaystatus'' [],
           Log ERROR ''Relay control failed: %s'',
           Http ''http://192.168.1.100/strip'' [(''on'', PInt 0)],
           Log ERROR ''Strip control failed: %s''])"
    using sub_steps_do_not_block [of "[1 \<mapsto> ?s]" 1 ?s device_url ?b unreachable "''ON''"
        "[(''on'', PInt 0)]"]
      h n1 s1 by simp
  have w2: "execute_schedule [1 \<mapsto> ?s] device_url only_status 1
       = (Inr (),
          [Log INFO ''Executing schedule '%s' (action=%s)'',
           Http ''http://192.168.1.100/relaystatus'' [],
           Http ''http://192.168.1.100/relay'' [],
           Log ERROR ''Relay control failed: %s'',
           Http ''http://192.168.1.100/strip'' [(''on'', PInt 0)],
           Log ERROR ''Strip control failed: %s''])"
    using sub_steps_do_not_block [of "[1 \<mapsto> ?s]" 1 ?s device_url ?b only_status "''ON''"
        "[(''on'', PInt 0)]"]
      h n2 p s2 by simp
  show ?thesis
    using h n1 n2 w1 w2 by (simp add: http_calls_def)
qed

text \<open>
  C6. For a schedule id that is not in the store at fire time, \<open>execute_schedule\<close> logs
  a warning and returns normally, and it issues no device call.
\<close>

theorem execute_schedule_absent:
  "store schedule_id = None \<Longrightarrow>
     execute_schedule store config net schedule_id = (Inr (), [Log WARNING ''Schedule %d not found''])
     \<and> http_calls (snd (execute_schedule store config net schedule_id)) = []"
  by (simp add: execute_schedule_def log_msg_def http_calls_def)

theorem execute_schedule_absent_witness:
  "[1 \<mapsto> evening] (2::int) = None
   \<and> execute_schedule [1 \<mapsto> evening] device_url relay_is_on 2
       = (Inr (), [Log WARNING ''Schedule %d not found''])
   \<and> http_calls (snd (execute_schedule [1 \<mapsto> evening] device_url relay_is_on 2)) = []"
  using execute_schedule_absent [of "[1 \<mapsto> evening]" 2 device_url relay_is_on]
  by (simp add: http_calls_def)

text \<open>
  C9. When the key of the device URL is absent from the config store,
  \<open>execute_schedule\<close> returns normally without any device call: for a stored schedule
  it logs that the URL is not configured, and neither the relay step nor the strip step
  runs.
\<close>

theorem execute_schedule_no_url:
  "config ''esp32_url'' = None \<Longrightarrow>
     fst (execute_schedule store config net schedule_id) = Inr ()
     \<and> http_calls (snd (execute_schedule store config net schedule_id)) = []
     \<and> (store schedule_id \<noteq> None \<longrightarrow>
          snd (execute_schedule store config net schedule_id)
            = [Log ERROR ''ESP32 URL not configured''])"
  by (simp add: execute_schedule_def get_config_def log_msg_def http_calls_def
           split: option.splits)

theorem execute_schedule_no_url_witness:
  "Map.empty ''esp32_url'' = (None :: string option)
   \<and> fst (execute_schedule [1 \<mapsto> evening] Map.empty relay_is_on 1) = Inr ()
   \<and> http_calls (snd (execute_schedule [1 \<mapsto> evening] Map.empty relay_is_on 1)) = []
   \<and> [1 \<mapsto> evening] (1::int) \<noteq> None
   \<and> snd (execute_schedule [1 \<mapsto> evening] Map.empty relay_is_on 1)
        = [Log ERROR ''ESP32 URL not configured'']"
  using execute_schedule_no_url [of Map.empty "[1 \<mapsto> evening]" relay_is_on 1]
  by (simp add: http_calls_def)

section \<open>Properties of the scheduler\<close>

subsection \<open>Deriving the trigger\<close>

text \<open>
  For a well-formed time and well-formed days the derivation of \<open>schedule_job\<close> returns
  the trigger of exactly those weekdays at that hour and minute.
\<close>

lemma py_split_no_sep: "sep \<notin> set x \<Longrightarrow> py_split sep x = [x]"
  by (induction x) auto

lemma py_split_append:
  "sep \<notin> set x \<Longrightarrow> py_split sep (x @ sep # rest) = x # py_split sep rest"
  by (induction x) auto

lemma py_split_join:
  "xs \<noteq> [] \<Longrightarrow> \<forall>x\<in>set xs. sep \<notin> set x \<Longrightarrow> py_split sep (py_join [sep] xs) = xs"
  by (induction "[sep]" xs rule: py_join.induct) (simp_all add: py_split_no_sep py_split_append)

lemma map_result_all:
  "\<forall>x\<in>set xs. f x = Inr (g x) \<Longrightarrow> map_result f xs = Inr (map g xs)"
  by (induction xs) (simp_all add: bind_result_def)

lemma day_char_digit:
  assumes "c \<in> set ''0123456''"
  shows "is_digit 10 c" "the (digit_value c) \<le> 6" "c \<noteq> CHR '',''"
  using assms by auto (simp_all add: is_digit_def digit_value_def)

lemma py_int_day_char:
  "c \<in> set ''0123456'' \<Longrightarrow> py_int 10 [c] = Inr (int (the (digit_value c)))"
  using py_int_digits [of "[c]" 10] by (simp add: day_char_digit(1))

lemma valid_days_split:
  "valid_days ds \<Longrightarrow>
     py_split CHR '','' ds = map (\<lambda>c. [c]) (filter (\<lambda>c. c \<noteq> CHR '','') ds)
     \<and> filter (\<lambda>c. c \<noteq> CHR '','') ds \<noteq> []
     \<and> set (filter (\<lambda>c. c \<noteq> CHR '','') ds) \<subseteq> set ''0123456''"
proof (induction ds rule: valid_days.induct)
  case 1
  then show ?case by simp
next
  case (2 d)
  then show ?case using day_char_digit(3) [of d] by simp
next
  case (3 d sep ds)
  then show ?case using day_char_digit(3) [of d] by simp
qed

lemma py_index_day: "n \<le> 6 \<Longrightarrow> py_index DAY_NAMES (int n) = Inr (DAY_NAMES ! n)"
  by (simp add: py_index_def DAY_NAMES_def)

lemma index_cases: "n \<le> 6 \<Longrightarrow> n \<in> {0, 1, 2, 3, 4, 5, 6::nat}"
  by auto

lemma day_name_weekday:
  assumes "n \<le> 6"
  shows "weekday_of_name (DAY_NAMES ! n) = Inr (week ! n)" "CHR '','' \<notin> set (DAY_NAMES ! n)"
proof -
  have c: "n \<in> {0, 1, 2, 3, 4, 5, 6}"
    by (rule index_cases [OF assms])
  then show "weekday_of_name (DAY_NAMES ! n) = Inr (week ! n)"
    by (elim insertE emptyE) (simp_all add: weekday_of_name_def DAY_NAMES_def week_def WEEKDAYS_def)
  from c show "CHR '','' \<notin> set (DAY_NAMES ! n)"
    by (elim insertE emptyE) (simp_all add: DAY_NAMES_def)
qed

lemma day_indices_range:
  assumes "valid_days ds"
  shows "day_indices ds \<noteq> []" "\<forall>n\<in>set (day_indices ds). n \<le> 6"
  using valid_days_split [OF assms] day_char_digit(2)
  by (auto simp: day_indices_def)

lemma day_names_of_valid:
  assumes "valid_days ds"
  shows "day_names_of ds = Inr (py_join '','' (map (\<lambda>n. DAY_NAMES ! n) (day_indices ds)))"
proof -
  let ?cs = "filter (\<lambda>c. c \<noteq> CHR '','') ds"
  have sp: "py_split CHR '','' ds = map (\<lambda>c. [c]) ?cs" and sub: "set ?cs \<subseteq> set ''0123456''"
    using valid_days_split [OF assms] by simp_all
  have ints: "map_result (py_int 10) (map (\<lambda>c. [c]) ?cs)
      = Inr (map (\<lambda>x. int (the (digit_value (hd x)))) (map (\<lambda>c. [c]) ?cs))"
    by (rule map_result_all) (use sub in \<open>auto simp: py_int_day_char simp del: set_filter\<close>)
  have nums: "map (\<lambda>x. int (the (digit_value (hd x)))) (map (\<lambda>c. [c]) ?cs)
      = map int (day_indices ds)"
    by (simp add: day_indices_def comp_def)
  have names: "map_result (py_index DAY_NAMES) (map int (day_indices ds))
      = Inr (map (\<lambda>i. DAY_NAMES ! nat i) (map int (day_indices ds)))"
    by (rule map_result_all) (use day_indices_range(2) [OF assms] in \<open>auto simp: py_index_day\<close>)
  show ?thesis
    unfolding day_names_of_def sp ints nums
    by (simp add: bind_result_def names comp_def)
qed

lemma CronTrigger_valid:
  assumes "ns \<noteq> []" "\<forall>n\<in>set ns. n \<le> 6" "0 \<le> h" "h \<le> 23" "0 \<le> m" "m \<le> 59"
  shows "CronTrigger (py_join '','' (map (\<lambda>n. DAY_NAMES ! n) ns)) h m
           = Inr \<lparr>day_of_week = map (\<lambda>n. week ! n) ns, hour = h, minute = m\<rparr>"
proof -
  have sp: "py_split CHR '','' (py_join '','' (map (\<lambda>n. DAY_NAMES ! n) ns))
      = map (\<lambda>n. DAY_NAMES ! n) ns"
    by (rule py_split_join) (use assms(1,2) in \<open>auto simp: day_name_weekday(2)\<close>)
  have wd: "map_result weekday_of_name (map (\<lambda>n. DAY_NAMES ! n) ns) = Inr (map (\<lambda>n. week ! n) ns)"
    using assms(2)
  proof (induction ns)
    case Nil
    then show ?case by simp
  next
    case (Cons n ns)
    then show ?case by (simp add: day_name_weekday(1) bind_result_def)
  qed
  show ?thesis
    using assms(3-6) by (simp add: CronTrigger_def sp wd bind_result_def)
qed


lemma valid_time_shape:
  assumes "valid_time t"
  obtains h1 h2 m1 m2 where "t = [h1, h2, CHR '':'', m1, m2]"
    "dec h1" "dec h2" "dec m1" "dec m2" "pair_value 10 h1 h2 < 24" "pair_value 10 m1 m2 < 60"
  using assms by (cases t rule: valid_time.cases) auto

lemma derive_trigger_valid:
  assumes "valid_time (time s)" "valid_days (days s)"
  shows "derive_trigger s =
           Inr (py_join '','' (map (\<lambda>n. DAY_NAMES ! n) (day_indices (days s))),
                \<lparr>day_of_week = map (\<lambda>n. week ! n) (day_indices (days s)),
                 hour = time_hour (time s), minute = time_minute (time s)\<rparr>)"
proof -
  obtain h1 h2 m1 m2 where t: "time s = [h1, h2, CHR '':'', m1, m2]"
    and d: "dec h1" "dec h2" "dec m1" "dec m2"
    and r: "pair_value 10 h1 h2 < 24" "pair_value 10 m1 m2 < 60"
    using assms(1) by (rule valid_time_shape)
  have dg: "is_digit 10 h1" "is_digit 10 h2" "is_digit 10 m1" "is_digit 10 m2"
    using d by (simp_all add: dec_is_digit)
  have nc: "h1 \<noteq> CHR '':''" "h2 \<noteq> CHR '':''" "m1 \<noteq> CHR '':''" "m2 \<noteq> CHR '':''"
    using dg by (simp_all add: is_digit_not_special(8))
  have sp: "py_split CHR '':'' (time s) = [[h1, h2], [m1, m2]]"
    using nc by (simp add: t)
  have hm: "py_int 10 [h1, h2] = Inr (time_hour (time s))"
    "py_int 10 [m1, m2] = Inr (time_minute (time s))"
    using dg by (simp_all add: py_int_pair t time_hour_def time_minute_def)
  have rng: "0 \<le> time_hour (time s)" "time_hour (time s) \<le> 23"
    "0 \<le> time_minute (time s)" "time_minute (time s) \<le> 59"
    using r by (simp_all add: t time_hour_def time_minute_def pair_value_def)
  have ct: "CronTrigger (py_join '','' (map (\<lambda>n. DAY_NAMES ! n) (day_indices (days s))))
        (time_hour (time s)) (time_minute (time s))
      = Inr \<lparr>day_of_week = map (\<lambda>n. week ! n) (day_indices (days s)),
             hour = time_hour (time s), minute = time_minute (time s)\<rparr>"
    using day_indices_range [OF assms(2)] rng by (rule CronTrigger_valid)
  show ?thesis
    unfolding derive_trigger_def sp
    by (simp add: day_names_of_valid [OF assms(2)] hm ct bind_result_def)
qed


lemma single_day:
  assumes "d \<le> 6"
  shows "valid_days (str_int (int d))" "day_indices (str_int (int d)) = [d]"
proof -
  have c: "d \<in> {0, 1, 2, 3, 4, 5, 6}"
    by (rule index_cases [OF assms])
  then show "valid_days (str_int (int d))"
    by (elim insertE emptyE) (simp_all add: str_int_def digit_char_def)
  from c show "day_indices (str_int (int d)) = [d]"
    by (elim insertE emptyE)
      (simp_all add: str_int_def digit_char_def day_indices_def digit_value_def)
qed

text \<open>
  C5. For every weekday index \<open>d\<close> in 0..6 the trigger derivation maps \<open>d\<close> to the
  \<open>d\<close>-th of the names \<open>mon\<close> ... \<open>sun\<close>, which the trigger reads as the \<open>d\<close>-th of
  Monday ... Sunday: 0 is Monday and 6 is Sunday, and the days \<open>0,1,2,3,4,5,6\<close> give
  Monday to Sunday in order.
\<close>

theorem weekday_index_to_name:
  "valid_time (time s) \<Longrightarrow>
     (d \<le> 6 \<longrightarrow> days s = str_int (int d) \<longrightarrow>
        derive_trigger s =
          Inr (DAY_NAMES ! d,
               \<lparr>day_of_week = [week ! d], hour = time_hour (time s),
                minute = time_minute (time s)\<rparr>)
        \<and> DAY_NAMES ! d = [''mon'', ''tue'', ''wed'', ''thu'', ''fri'', ''sat'', ''sun''] ! d
        \<and> week ! d = [Monday, Tuesday, Wednesday, Thursday, Friday, Saturday, Sunday] ! d)
     \<and> (days s = ''0,1,2,3,4,5,6'' \<longrightarrow>
        derive_trigger s =
          Inr (''mon,tue,wed,thu,fri,sat,sun'',
               \<lparr>day_of_week = [Monday, Tuesday, Wednesday, Thursday, Friday, Saturday, Sunday],
                hour = time_hour (time s), minute = time_minute (time s)\<rparr>))"
proof -
  assume t: "valid_time (time s)"
  have one: "derive_trigger s =
          Inr (DAY_NAMES ! d,
               \<lparr>day_of_week = [week ! d], hour = time_hour (time s),
                minute = time_minute (time s)\<rparr>)"
    if "d \<le> 6" "days s = str_int (int d)"
    using derive_trigger_valid [OF t, unfolded that(2), OF single_day(1) [OF that(1)]]
    by (simp add: single_day(2) [OF that(1)] that(2))
  have v: "valid_days ''0,1,2,3,4,5,6''"
    by simp
  have i: "day_indices ''0,1,2,3,4,5,6'' = [0, 1, 2, 3, 4, 5, 6]"
    by (simp add: day_indices_def digit_value_def)
  have all: "derive_trigger s =
          Inr (''mon,tue,wed,thu,fri,sat,sun'',
               \<lparr>day_of_week = [Monday, Tuesday, Wednesday, Thursday, Friday, Saturday, Sunday],
                hour = time_hour (time s), minute = time_minute (time s)\<rparr>)"
    if "days s = ''0,1,2,3,4,5,6''"
    using derive_trigger_valid [OF t, unfolded that, OF v]
    by (simp add: i that DAY_NAMES_def week_def)
  show ?thesis
    using one all by (simp add: DAY_NAMES_def week_def)
qed

theorem weekday_index_to_name_witness:
  "valid_time (time evening)
   \<and> (0::nat) \<le> 6 \<and> str_int (int 0) = ''0''
   \<and> derive_trigger (evening\<lparr>days := ''0''\<rparr>)
        = Inr (''mon'', \<lparr>day_of_week = [Monday], hour = 18, minute = 30\<rparr>)
   \<and> (6::nat) \<le> 6 \<and> str_int (int 6) = ''6''
   \<and> derive_trigger (evening\<lparr>days := ''6''\<rparr>)
        = Inr (''sun'', \<lparr>day_of_week = [Sunday], hour = 18, minute = 30\<rparr>)
   \<and> derive_trigger (evening\<lparr>days := ''0,1,2,3,4,5,6''\<rparr>)
        = Inr (''mon,tue,wed,thu,fri,sat,sun'',
               \<lparr>day_of_week = [Monday, Tuesday, Wednesday, Thursday, Friday, Saturday, Sunday],
                hour = 18, minute = 30\<rparr>)"
proof -
  have t: "time evening = ''18:30''"
    by (simp add: evening_def)
  have v: "valid_time ''18:30''"
    by (simp add: dec_def pair_value_def digit_value_def)
  have hm: "time_hour ''18:30'' = 18" "time_minute ''18:30'' = 30"
    by (simp_all add: time_hour_def time_minute_def pair_value_def digit_value_def)
  have s: "str_int (int 0) = ''0''" "str_int (int 6) = ''6''"
    by (simp_all add: str_int_def digit_char_def)
  show ?thesis
    using t v hm s
      weekday_index_to_name [of "evening\<lparr>days := ''0''\<rparr>" 0]
      weekday_index_to_name [of "evening\<lparr>days := ''6''\<rparr>" 6]
      weekday_index_to_name [of "evening\<lparr>days := ''0,1,2,3,4,5,6''\<rparr>" 0]
    by (simp add: DAY_NAMES_def week_def)
qed

subsection \<open>The job table keeps one job per id\<close>

text \<open>The invariant: no two jobs of the scheduler have the same id.\<close>

lemma count_filter_jid:
  "length (filter (\<lambda>j. jid j = i) js) = count_list (map jid js) i"
  by (induction js) auto

lemma count_jobs_ids: "count_jobs i sch = count_list (ids sch) i"
  by (simp add: count_jobs_def ids_def count_filter_jid)

lemma remove_first_subset: "set (remove_first i js) \<subseteq> set js"
  by (induction js) auto

lemma remove_first_distinct:
  "distinct (map jid js) \<Longrightarrow> distinct (map jid (remove_first i js))"
  using remove_first_subset by (induction js) fastforce+

lemma remove_first_gone:
  "distinct (map jid js) \<Longrightarrow> i \<notin> jid ` set (remove_first i js)"
  by (induction js) auto

lemma remove_first_other:
  "k \<noteq> i \<Longrightarrow> k \<in> jid ` set (remove_first i js) \<longleftrightarrow> k \<in> jid ` set js"
  by (induction js) auto

lemma remove_first_ids:
  assumes "distinct (map jid js)"
  shows "distinct (map jid (remove_first i js))"
    and "set (map jid (remove_first i js)) = set (map jid js) - {i}"
proof -
  show "distinct (map jid (remove_first i js))"
    by (rule remove_first_distinct [OF assms])
  show "set (map jid (remove_first i js)) = set (map jid js) - {i}"
  proof (rule set_eqI)
    fix k
    show "k \<in> set (map jid (remove_first i js)) \<longleftrightarrow> k \<in> set (map jid js) - {i}"
      using remove_first_gone [OF assms, of i] remove_first_other [of k i js]
      by (cases "k = i") simp_all
  qed
qed

lemma map_jid_replace:
  "map jid (map (\<lambda>k. if jid k = jid j then j else k) js) = map jid js"
  by (induction js) auto

lemma remove_job_pass_ids:
  assumes "distinct (ids sch)"
  shows "distinct (ids (remove_job_pass i sch))"
    and "set (ids (remove_job_pass i sch)) = set (ids sch) - {i}"
    and "running (remove_job_pass i sch) = running sch"
  using assms remove_first_ids [of "jobs sch" i]
  by (auto simp: remove_job_pass_def remove_job_def ids_def)

lemma ids_add_job:
  "ids (add_job j sch) =
     (if running sch \<and> jid j \<in> set (ids sch) then ids sch else ids sch @ [jid j])"
  unfolding ids_def add_job_def by (simp add: map_jid_replace del: map_map)

lemma add_job_ids:
  assumes "distinct (ids sch)" "running sch \<or> jid j \<notin> set (ids sch)"
  shows "distinct (ids (add_job j sch))"
    and "set (ids (add_job j sch)) = insert (jid j) (set (ids sch))"
    and "running (add_job j sch) = running sch"
proof -
  show "distinct (ids (add_job j sch))"
    using assms by (auto simp: ids_add_job)
  show "set (ids (add_job j sch)) = insert (jid j) (set (ids sch))"
    using assms by (auto simp: ids_add_job)
  show "running (add_job j sch) = running sch"
    by (simp add: add_job_def)
qed

lemma foldl_add_job_ids:
  "distinct (ids s) \<Longrightarrow> running s \<Longrightarrow>
     distinct (ids (foldl (\<lambda>s j. add_job j s) s js)) \<and> running (foldl (\<lambda>s j. add_job j s) s js)"
  by (induction js arbitrary: s) (simp_all add: add_job_ids)

lemma count_one: "distinct xs \<Longrightarrow> count_list xs i = (if i \<in> set xs then 1 else 0)"
  by (induction xs) auto

lemma schedule_job_ids:
  assumes "distinct (ids sch)"
  shows "distinct (ids (snd (schedule_job s sch)))"
proof (cases "derive_trigger s")
  case (Inl e)
  then show ?thesis using assms by (simp add: schedule_job_def)
next
  case (Inr p)
  obtain dn t where p: "p = (dn, t)" by (cases p)
  let ?i = "job_id_of (sched_id s)"
  let ?s1 = "remove_job_pass ?i sch"
  have d: "distinct (ids ?s1)" and n: "?i \<notin> set (ids ?s1)"
    using remove_job_pass_ids [OF assms, of ?i] by auto
  show ?thesis
    using Inr p d n add_job_ids(1) [of ?s1 "\<lparr>jid = ?i, trigger = t, args = sched_id s\<rparr>"]
    by (simp add: schedule_job_def Let_def)
qed

lemma schedule_job_count:
  assumes "distinct (ids sch)" "derive_trigger s = Inr p"
  shows "count_jobs (job_id_of (sched_id s)) (snd (schedule_job s sch)) = (if enabled s \<noteq> 0 then 1 else 0)"
proof -
  obtain dn t where p: "p = (dn, t)" by (cases p)
  let ?i = "job_id_of (sched_id s)"
  let ?s1 = "remove_job_pass ?i sch"
  have d: "distinct (ids ?s1)" and n: "?i \<notin> set (ids ?s1)"
    using remove_job_pass_ids [OF assms(1), of ?i] by auto
  have a: "set (ids (add_job \<lparr>jid = ?i, trigger = t, args = sched_id s\<rparr> ?s1)) = insert ?i (set (ids ?s1))"
    using add_job_ids(2) [of ?s1 "\<lparr>jid = ?i, trigger = t, args = sched_id s\<rparr>"] d n by simp
  have ds: "distinct (ids (snd (schedule_job s sch)))"
    by (rule schedule_job_ids [OF assms(1)])
  show ?thesis
    using ds assms(2) p n a
    by (simp add: count_jobs_ids count_one) (simp add: schedule_job_def Let_def)
qed

lemma apply_call_ids: "distinct (ids sch) \<Longrightarrow> distinct (ids (apply_call sch c))"
proof (cases c)
  case (Reconcile s)
  assume "distinct (ids sch)"
  then show ?thesis using Reconcile by (simp add: schedule_job_ids)
next
  case (Remove i)
  assume "distinct (ids sch)"
  then show ?thesis using Remove by (simp add: remove_job_pass_ids)
next
  case Start
  assume "distinct (ids sch)"
  then show ?thesis using Start foldl_add_job_ids [of "\<lparr>running = True, jobs = []\<rparr>" "jobs sch"]
    by (simp add: start_def ids_def)
qed

lemma foldl_apply_call_ids:
  "distinct (ids sch) \<Longrightarrow> distinct (ids (foldl apply_call sch cs))"
  by (induction cs arbitrary: sch) (simp_all add: apply_call_ids)

lemma run_calls_ids: "distinct (ids (run_calls cs))"
  unfolding run_calls_def
  by (rule foldl_apply_call_ids) (simp add: ids_def scheduler_init_def)


lemma remove_job_pass_count:
  "distinct (ids sch) \<Longrightarrow> count_jobs i (remove_job_pass i sch) = 0"
  using remove_job_pass_ids [of sch i] by (simp add: count_jobs_ids count_one)

text \<open>
  C1, as the code has it. After any sequence of calls of \<open>schedule_job\<close>, removals and
  the start of the scheduler, at most one job is registered under any id. When the
  trigger of a schedule can be derived (its time and days parse, so that \<open>schedule_job\<close>
  returns), reconciling it with \<open>enabled\<close> true leaves exactly one job for its id, doing so
  twice in a row still leaves exactly one, and reconciling it with \<open>enabled\<close> false leaves
  none; the removal of \<open>delete_schedule\<close> leaves none.
\<close>

theorem one_job_per_schedule:
  "count_jobs i (run_calls cs) \<le> 1
   \<and> (derive_trigger s = Inr p \<longrightarrow> enabled s \<noteq> 0 \<longrightarrow>
        count_jobs (job_id_of (sched_id s)) (snd (schedule_job s (run_calls cs))) = 1)
   \<and> (derive_trigger s = Inr p \<longrightarrow> enabled s \<noteq> 0 \<longrightarrow>
      derive_trigger s' = Inr p' \<longrightarrow> enabled s' \<noteq> 0 \<longrightarrow> sched_id s' = sched_id s \<longrightarrow>
        count_jobs (job_id_of (sched_id s))
          (snd (schedule_job s' (snd (schedule_job s (run_calls cs))))) = 1)
   \<and> (derive_trigger s = Inr p \<longrightarrow> enabled s = 0 \<longrightarrow>
        count_jobs (job_id_of (sched_id s)) (snd (schedule_job s (run_calls cs))) = 0)
   \<and> count_jobs (job_id_of sid) (snd (delete_schedule sid store (run_calls cs))) = 0"
proof -
  have inv: "distinct (ids (run_calls cs))"
    by (rule run_calls_ids)
  have a: "count_jobs i (run_calls cs) \<le> 1"
    using inv by (simp add: count_jobs_ids count_one)
  have b: "derive_trigger s = Inr p \<Longrightarrow>
      count_jobs (job_id_of (sched_id s)) (snd (schedule_job s (run_calls cs)))
        = (if enabled s \<noteq> 0 then 1 else 0)"
    by (rule schedule_job_count [OF inv])
  have inv': "distinct (ids (snd (schedule_job s (run_calls cs))))"
    by (rule schedule_job_ids [OF inv])
  have c: "derive_trigger s' = Inr p' \<Longrightarrow> sched_id s' = sched_id s \<Longrightarrow>
      count_jobs (job_id_of (sched_id s))
          (snd (schedule_job s' (snd (schedule_job s (run_calls cs)))))
        = (if enabled s' \<noteq> 0 then 1 else 0)"
    using schedule_job_count [OF inv', of s' p'] by simp
  have d: "count_jobs (job_id_of sid) (snd (delete_schedule sid store (run_calls cs))) = 0"
    using inv by (simp add: delete_schedule_def remove_job_pass_count)
  show ?thesis
    using a b c d by simp
qed

theorem one_job_per_schedule_witness:
  "derive_trigger evening
     = Inr (''mon,tue,wed,thu,fri'',
            \<lparr>day_of_week = [Monday, Tuesday, Wednesday, Thursday, Friday],
             hour = 18, minute = 30\<rparr>)
   \<and> enabled evening \<noteq> 0
   \<and> count_jobs ''schedule_1'' (run_calls [Reconcile evening, Start]) \<le> 1
   \<and> count_jobs (job_id_of (sched_id evening))
        (snd (schedule_job evening (run_calls [Reconcile evening, Start]))) = 1
   \<and> count_jobs (job_id_of (sched_id evening))
        (snd (schedule_job evening
           (snd (schedule_job evening (run_calls [Reconcile evening, Start]))))) = 1
   \<and> derive_trigger (evening\<lparr>enabled := 0\<rparr>)
     = Inr (''mon,tue,wed,thu,fri'',
            \<lparr>day_of_week = [Monday, Tuesday, Wednesday, Thursday, Friday],
             hour = 18, minute = 30\<rparr>)
   \<and> enabled (evening\<lparr>enabled := 0\<rparr>) = 0
   \<and> count_jobs (job_id_of (sched_id (evening\<lparr>enabled := 0\<rparr>)))
        (snd (schedule_job (evening\<lparr>enabled := 0\<rparr>)
           (run_calls [Reconcile evening, Start]))) = 0
   \<and> count_jobs (job_id_of 1)
        (snd (delete_schedule 1 [1 \<mapsto> evening] (run_calls [Reconcile evening, Start]))) = 0"
proof -
  let ?p = "(''mon,tue,wed,thu,fri'',
            \<lparr>day_of_week = [Monday, Tuesday, Wednesday, Thursday, Friday],
             hour = 18, minute = 30\<rparr>)"
  let ?cs = "[Reconcile evening, Start]"
  have d1: "derive_trigger evening = Inr ?p"
    by code_simp
  have d2: "derive_trigger (evening\<lparr>enabled := 0\<rparr>) = Inr ?p"
    by code_simp
  have e1: "enabled evening \<noteq> 0"
    by (simp add: evening_def)
  have e2: "enabled (evening\<lparr>enabled := 0\<rparr>) = 0"
    by simp
  show ?thesis
    using d1 d2 e1 e2
      one_job_per_schedule [of "''schedule_1''" ?cs evening ?p evening ?p 1 "[1 \<mapsto> evening]"]
      one_job_per_schedule [of "''schedule_1''" ?cs "evening\<lparr>enabled := 0\<rparr>" ?p evening ?p 1
         "[1 \<mapsto> evening]"]
    by simp
qed

text \<open>
  C1, as it was stated for every schedule, fails: a schedule with \<open>enabled\<close> false whose
  time does not parse makes \<open>schedule_job\<close> raise before the removal, and the job
  registered for its id stays.
\<close>

theorem disabled_malformed_keeps_job:
  "enabled (evening\<lparr>time := ''1830'', enabled := 0\<rparr>) = 0
   \<and> count_jobs (job_id_of (sched_id (evening\<lparr>time := ''1830'', enabled := 0\<rparr>)))
        (snd (schedule_job (evening\<lparr>time := ''1830'', enabled := 0\<rparr>)
               (run_calls [Reconcile evening]))) = 1"
  by code_simp

text \<open>
  C10. \<open>schedule_job\<close> derives the trigger before it removes the job of the id: when the
  derivation raises (the time or the days do not parse), \<open>schedule_job\<close> raises the same
  exception and the scheduler, with the job registered before, is as it was.
\<close>

theorem schedule_job_raises_before_remove:
  "derive_trigger schedule = Inl e \<Longrightarrow> schedule_job schedule sch = ((Inl e, []), sch)"
  by (simp add: schedule_job_def)

theorem schedule_job_raises_before_remove_witness:
  "derive_trigger (evening\<lparr>time := ''1830''\<rparr>) = Inl ValueError
   \<and> schedule_job (evening\<lparr>time := ''1830''\<rparr>) (snd (schedule_job evening scheduler_init))
       = ((Inl ValueError, []), snd (schedule_job evening scheduler_init))
   \<and> count_jobs ''schedule_1'' (snd (schedule_job evening scheduler_init)) = 1"
proof -
  have d: "derive_trigger (evening\<lparr>time := ''1830''\<rparr>) = Inl ValueError"
    by code_simp
  have c: "count_jobs ''schedule_1'' (snd (schedule_job evening scheduler_init)) = 1"
    by code_simp
  show ?thesis
    using d c schedule_job_raises_before_remove [OF d, of "snd (schedule_job evening scheduler_init)"]
    by simp
qed

text \<open>
  C7. What \<open>update_schedule\<close> does for an id that is not in the store: the UPDATE changes
  nothing, and building the dictionary from the missing row raises \<open>TypeError\<close>; no
  \<open>NotFound\<close> result is given to the caller.
\<close>

theorem update_schedule_absent:
  "store sid = None \<Longrightarrow> json_name data = Some nm \<Longrightarrow> json_time data = Some tm \<Longrightarrow>
     update_schedule sid data store sch = (Inl TypeError, [], store, sch)"
  by (simp add: update_schedule_def subscript_def domIff)

theorem update_schedule_absent_witness:
  "update_schedule 2
     \<lparr>json_name = Some ''Night'', json_time = Some ''23:00'', json_days = None,
      json_action = None, json_relay = None, json_strip = None, json_brightness = None,
      json_color = None, json_enabled = None\<rparr>
     [1 \<mapsto> evening] scheduler_init
   = (Inl TypeError, [], [1 \<mapsto> evening], scheduler_init)"
  using update_schedule_absent [of "[1 \<mapsto> evening]" 2 
     "\<lparr>json_name = Some ''Night'', json_time = Some ''23:00'', json_days = None,
      json_action = None, json_relay = None, json_strip = None, json_brightness = None,
      json_color = None, json_enabled = None\<rparr>" "''Night''" "''23:00''" scheduler_init]
  by simp

section \<open>Well-formed and malformed records\<close>

text \<open>
  A network whose calls fail with \<open>RequestException\<close> only never makes a step raise.
\<close>

lemma set_relay_transport_only:
  assumes "\<forall>url params e. net url params = Inl e \<longrightarrow> e = RequestException"
  shows "fst (set_relay net base_url turn_on) = Inr ()"
proof (cases "net (base_url @ ''/relaystatus'') []")
  case (Inl e)
  then have "e = RequestException" using assms by blast
  then show ?thesis
    using Inl by (simp add: set_relay_status_fails)
next
  case (Inr body)
  show ?thesis
  proof (cases "net (base_url @ ''/relay'') []")
    case (Inl e)
    then have "e = RequestException" using assms by blast
    then show ?thesis
      using Inl Inr
      by (simp add: set_relay_def except_RequestException_def bind_run_def http_get_def
            log_msg_def Let_def)
  next
    case toggled: (Inr r)
    then show ?thesis
      using Inr
      by (simp add: set_relay_def except_RequestException_def bind_run_def http_get_def
            log_msg_def Let_def)
  qed
qed

lemma set_strip_transport_only:
  assumes "\<forall>url params e. net url params = Inl e \<longrightarrow> e = RequestException"
    and "strip_params schedule = Inr params"
  shows "fst (set_strip net base_url schedule) = Inr ()"
proof (cases "net (base_url @ ''/strip'') params")
  case (Inl e)
  then have "e = RequestException" using assms(1) by blast
  then show ?thesis
    using Inl assms(2) by (simp add: set_strip_fails)
next
  case (Inr r)
  then show ?thesis
    using assms(2)
    by (simp add: set_strip_def except_RequestException_def bind_run_def lift_run_def
          http_get_def log_msg_def)
qed

lemma strip_params_well_formed:
  assumes "valid_color (color schedule)"
  shows "\<exists>params. strip_params schedule = Inr params"
proof (cases "action schedule = ''on''")
  case True
  then show ?thesis using strip_params_valid_color [OF assms] by simp
next
  case False
  then show ?thesis by (simp add: strip_params_def)
qed

lemma execute_schedule_transport_only:
  assumes "\<forall>url params e. net url params = Inl e \<longrightarrow> e = RequestException"
    and "store schedule_id = Some schedule" "valid_color (color schedule)"
  shows "fst (execute_schedule store config net schedule_id) = Inr ()"
proof -
  obtain params where p: "strip_params schedule = Inr params"
    using strip_params_well_formed [OF assms(3)] by blast
  have r: "fst (set_relay net base_url turn_on) = Inr ()" for base_url turn_on
    by (rule set_relay_transport_only [OF assms(1)])
  have s: "fst (set_strip net base_url schedule) = Inr ()" for base_url
    by (rule set_strip_transport_only [OF assms(1) p])
  have seq: "fst (bind_run m (\<lambda>_. k)) = Inr ()" if "fst m = Inr ()" "fst k = Inr ()"
    for m k :: "unit run"
    using that by (cases m; cases k) (simp add: bind_run_def)
  show ?thesis
    using assms(2)
    by (simp add: execute_schedule_def get_config_def log_msg_def return_run_def seq r s
          split: option.splits)
qed

lemma schedule_job_well_formed:
  assumes "valid_time (time schedule)" "valid_days (days schedule)"
  shows "fst (fst (schedule_job schedule sch)) = Inr ()"
  using derive_trigger_valid [OF assms]
  by (simp add: schedule_job_def Let_def log_msg_def return_run_def)

text \<open>
  C8, as the code has it. For a stored record whose time, days and color are well-formed,
  \<open>schedule_job\<close> returns normally, and \<open>execute_schedule\<close> returns normally whenever
  the device calls fail with transport errors only: no \<open>RequestException\<close> of the relay or
  the strip step gets past \<open>execute_schedule\<close>.
\<close>

theorem well_formed_record_no_exception:
  "(valid_time (time schedule) \<longrightarrow> valid_days (days schedule) \<longrightarrow>
      fst (fst (schedule_job schedule sch)) = Inr ())
   \<and> (store schedule_id = Some schedule \<longrightarrow> valid_color (color schedule) \<longrightarrow>
      (\<forall>url params e. net url params = Inl e \<longrightarrow> e = RequestException) \<longrightarrow>
      fst (execute_schedule store config net schedule_id) = Inr ())"
  using schedule_job_well_formed [of schedule sch]
    execute_schedule_transport_only [of net store schedule_id schedule config]
  by blast

theorem well_formed_record_no_exception_witness:
  "valid_time (time evening) \<and> valid_days (days evening)
   \<and> fst (fst (schedule_job evening scheduler_init)) = Inr ()
   \<and> [1 \<mapsto> evening] (1::int) = Some evening \<and> valid_color (color evening)
   \<and> (\<forall>url params. unreachable url params = Inl RequestException)
   \<and> fst (execute_schedule [1 \<mapsto> evening] device_url unreachable 1) = Inr ()"
proof -
  have t: "valid_time (time evening)"
    by (simp add: evening_def dec_def pair_value_def digit_value_def)
  have d: "valid_days (days evening)"
    by (simp add: evening_def)
  have c: "valid_color (color evening)"
    by (simp add: evening_def valid_color_def hex_digits_def hex_def)
  have n: "\<forall>url params e. unreachable url params = Inl e \<longrightarrow> e = RequestException"
    by (simp add: unreachable_def)
  have s: "[1 \<mapsto> evening] (1::int) = Some evening"
    by simp
  have u: "\<forall>url params. unreachable url params = Inl RequestException"
    by (simp add: unreachable_def)
  show ?thesis
    using t d c n s u
      well_formed_record_no_exception [of evening scheduler_init "[1 \<mapsto> evening]" 1
        unreachable device_url]
    by blast
qed

text \<open>
  C8, as it was stated for every stored record, fails: a color that is not hexadecimal
  raises \<open>ValueError\<close> in the strip step, which catches \<open>RequestException\<close> only, and the
  exception leaves \<open>execute_schedule\<close>; a time out of range raises \<open>ValueError\<close> and a
  day index out of range raises \<open>IndexError\<close> out of \<open>schedule_job\<close>.
\<close>

theorem malformed_record_raises:
  "fst (execute_schedule [1 \<mapsto> evening\<lparr>color := ''#zz0000''\<rparr>] device_url relay_is_on 1)
     = Inl ValueError
   \<and> fst (fst (schedule_job (evening\<lparr>time := ''25:00''\<rparr>) scheduler_init)) = Inl ValueError
   \<and> fst (fst (schedule_job (evening\<lparr>days := ''0,7''\<rparr>) scheduler_init)) = Inl IndexError"
  by code_simp

end
